theory Spec2Isabelle
  imports Main "HOL-Library.Word"
begin

unbundle bit_operations_syntax

section \<open>Machine types of \<^verbatim>\<open>file_io.cc\<close>\<close>

text \<open>
  The addon is modelled on an LP64 / Win64 target, the only ones on which its vector path
  exists: \<^verbatim>\<open>size_t\<close>, \<^verbatim>\<open>uint64_t\<close> and pointers are 64-bit words with wrapping
  arithmetic, \<^verbatim>\<open>int64_t\<close> is a 64-bit word read through \<open>sint\<close>, \<^verbatim>\<open>uint8_t\<close> is an 8-bit
  word and \<^verbatim>\<open>DWORD\<close> a 32-bit word.
\<close>

type_synonym byte = "8 word"
type_synonym u64 = "64 word"
type_synonym i64 = "64 word"
type_synonym size_t = "64 word"
type_synonym dword = "32 word"
type_synonym addr = "64 word"

section \<open>Buffer fingerprint: \<^verbatim>\<open>SimdChecksum\<close>\<close>

subsection \<open>The AVX2 intrinsics the function calls\<close>

text \<open>
  A \<^verbatim>\<open>__m256i\<close> value is read by the code as four \<^verbatim>\<open>uint64_t\<close> lanes
  (\<^verbatim>\<open>acc_parts[0..3]\<close>). x86-64 is little-endian, so the lane at byte offset \<open>8 * k\<close> of an
  unaligned load is the little-endian value of the eight bytes stored there.
\<close>

type_synonym m256i = "u64 \<times> u64 \<times> u64 \<times> u64"

definition le64 :: "byte list \<Rightarrow> u64" where
  "le64 bs = foldr (\<lambda>b acc. ucast b + acc * 256) bs 0"

definition mm256_setzero_si256 :: m256i where
  "mm256_setzero_si256 = (0, 0, 0, 0)"

definition load_u64 :: "byte list \<Rightarrow> nat \<Rightarrow> u64" where
  "load_u64 bytes p = le64 (map (\<lambda>j. bytes ! (p + j)) [0..<8])"

definition mm256_loadu_si256 :: "byte list \<Rightarrow> nat \<Rightarrow> m256i" where
  "mm256_loadu_si256 bytes p =
     (load_u64 bytes p, load_u64 bytes (p + 8), load_u64 bytes (p + 16), load_u64 bytes (p + 24))"

fun mm256_add_epi64 :: "m256i \<Rightarrow> m256i \<Rightarrow> m256i" where
  "mm256_add_epi64 (a0, a1, a2, a3) (b0, b1, b2, b3) = (a0 + b0, a1 + b1, a2 + b2, a3 + b3)"

subsection \<open>The two loops\<close>

text \<open>
  \<^verbatim>\<open>for (; i + 32 <= length; i += 32) { chunk = load(bytes + i); acc = add(acc, chunk); }\<close>
  The loop returns the index it stops at together with the accumulator, since the
  remainder loop continues from that index. Indices are natural numbers: a buffer that
  exists in memory is shorter than \<open>2 ^ 64 - 32\<close> bytes, so \<^verbatim>\<open>i + 32\<close> never wraps.
\<close>

function vector_loop :: "byte list \<Rightarrow> nat \<Rightarrow> m256i \<Rightarrow> nat \<times> m256i" where
  "vector_loop bytes i acc =
     (if i + 32 \<le> length bytes
      then vector_loop bytes (i + 32) (mm256_add_epi64 acc (mm256_loadu_si256 bytes i))
      else (i, acc))"
  by pat_completeness auto
termination
  by (relation "measure (\<lambda>(bytes, i, acc). length bytes - i)") auto

declare vector_loop.simps [simp del]

text \<open>\<^verbatim>\<open>for (; i < length; i++) hash = hash * 31 + bytes[i];\<close>\<close>

function scalar_loop :: "byte list \<Rightarrow> nat \<Rightarrow> u64 \<Rightarrow> u64" where
  "scalar_loop bytes i hash =
     (if i < length bytes
      then scalar_loop bytes (i + 1) (hash * 31 + ucast (bytes ! i))
      else hash)"
  by pat_completeness auto
termination
  by (relation "measure (\<lambda>(bytes, i, hash). length bytes - i)") auto

declare scalar_loop.simps [simp del]

fun fold_lanes :: "m256i \<Rightarrow> u64" where
  "fold_lanes (p0, p1, p2, p3) = p0 XOR p1 XOR p2 XOR p3"

text \<open>
  The vector phase, lines 227-244: the index and hash the remainder loop starts from.
  Below 32 bytes the guarded block is skipped and both stay zero.
\<close>

definition vector_phase :: "byte list \<Rightarrow> nat \<times> u64" where
  "vector_phase bytes =
     (if length bytes \<ge> 32
      then (let (i, acc) = vector_loop bytes 0 mm256_setzero_si256 in (i, fold_lanes acc))
      else (0, 0))"

definition checksum_x86_64 :: "byte list \<Rightarrow> u64" where
  "checksum_x86_64 bytes = (let (i, hash) = vector_phase bytes in scalar_loop bytes i hash)"

definition checksum_fallback :: "byte list \<Rightarrow> u64" where
  "checksum_fallback bytes = scalar_loop bytes 0 0"

subsection \<open>\<^verbatim>\<open>snprintf(hex, sizeof(hex), "%016llx", hash)\<close>\<close>

text \<open>
  The C library's conversion: the digits of the value in base 16, lowercase, without
  leading zeros (one digit for zero), padded on the left with \<^verbatim>\<open>0\<close> up to the field width
  16; at most \<open>bufsize - 1\<close> characters are stored before the terminating NUL.
\<close>

definition hex_digit :: "nat \<Rightarrow> char" where
  "hex_digit d = ''0123456789abcdef'' ! d"

function hex_digits :: "nat \<Rightarrow> string" where
  "hex_digits n = (if n < 16 then [hex_digit n] else hex_digits (n div 16) @ [hex_digit (n mod 16)])"
  by pat_completeness auto
termination
  by (relation "measure id") auto

declare hex_digits.simps [simp del]

definition snprintf_016llx :: "nat \<Rightarrow> u64 \<Rightarrow> string" where
  "snprintf_016llx bufsize h =
     (let ds = hex_digits (unat h)
      in take (bufsize - 1) (replicate (16 - length ds) CHR ''0'' @ ds))"

text \<open>
  \<^verbatim>\<open>SimdChecksum\<close> after its argument has been decoded to a byte buffer. The flag says
  whether the translation unit was compiled with \<^verbatim>\<open>__x86_64__\<close> (or \<^verbatim>\<open>_M_X64\<close>,
  \<^verbatim>\<open>_M_AMD64\<close>) defined. \<^verbatim>\<open>napi_create_string_utf8(env, hex, 16, &result)\<close> takes the first
  16 characters of the 17-byte array.
\<close>

definition SimdChecksum :: "bool \<Rightarrow> byte list \<Rightarrow> string" where
  "SimdChecksum x86_64 bytes =
     take 16 (snprintf_016llx 17 (if x86_64 then checksum_x86_64 bytes else checksum_fallback bytes))"

subsection \<open>The reference fingerprint, as the specification words it\<close>

text \<open>
  Full 32-byte chunks, each viewed as four 64-bit lanes and added lane by lane into an
  accumulator that starts at zero; the lanes are folded by exclusive-or; the bytes left
  over are folded by \<open>hash * 31 + byte\<close>. Without vector support every byte is folded
  by the scalar step from zero.
\<close>

fun full_chunks :: "byte list \<Rightarrow> byte list list" where
  "full_chunks b = (if length b < 32 then [] else take 32 b # full_chunks (drop 32 b))"

fun remaining_bytes :: "byte list \<Rightarrow> byte list" where
  "remaining_bytes b = (if length b < 32 then b else remaining_bytes (drop 32 b))"

declare full_chunks.simps [simp del] remaining_bytes.simps [simp del]

definition chunk_lanes :: "byte list \<Rightarrow> u64 list" where
  "chunk_lanes c = map (\<lambda>k. le64 (take 8 (drop (8 * k) c))) [0..<4]"

definition add_lanes :: "u64 list \<Rightarrow> u64 list \<Rightarrow> u64 list" where
  "add_lanes acc c = map (\<lambda>(a, x). a + x) (zip acc c)"

definition scalar_step :: "u64 \<Rightarrow> byte \<Rightarrow> u64" where
  "scalar_step hash b = hash * 31 + ucast b"

definition spec_hash_vector :: "byte list \<Rightarrow> u64" where
  "spec_hash_vector b =
     (let acc = foldl add_lanes [0, 0, 0, 0] (map chunk_lanes (full_chunks b));
          folded = foldl (XOR) 0 acc
      in foldl scalar_step folded (remaining_bytes b))"

definition spec_hash_scalar :: "byte list \<Rightarrow> u64" where
  "spec_hash_scalar b = foldl scalar_step 0 b"

definition spec_hex16 :: "u64 \<Rightarrow> string" where
  "spec_hex16 h = map (\<lambda>k. hex_digit (unat h div 16 ^ (15 - k) mod 16)) [0..<16]"

definition spec_fingerprint :: "bool \<Rightarrow> byte list \<Rightarrow> string" where
  "spec_fingerprint vector b = spec_hex16 (if vector then spec_hash_vector b else spec_hash_scalar b)"

definition lowercase_hex :: "string \<Rightarrow> bool" where
  "lowercase_hex s = list_all (\<lambda>c. c \<in> set ''0123456789abcdef'') s"

subsection \<open>Auxiliary notions for the proofs\<close>

text \<open>The four lanes of a vector register as a list, lane 0 first.\<close>

definition lanes_of :: "m256i \<Rightarrow> u64 list" where
  "lanes_of a = (case a of (a0, a1, a2, a3) \<Rightarrow> [a0, a1, a2, a3])"

text \<open>The last \<open>k\<close> base-16 digits of a number, most significant first.\<close>

fun hex_fixed :: "nat \<Rightarrow> nat \<Rightarrow> string" where
  "hex_fixed 0 n = []"
| "hex_fixed (Suc k) n = hex_fixed k (n div 16) @ [hex_digit (n mod 16)]"

section \<open>The operating system and the host runtime, as \<^verbatim>\<open>file_io.cc\<close> calls them\<close>

text \<open>
  \<^verbatim>\<open>FastReadFile\<close>, \<^verbatim>\<open>UnmapCallback\<close> and \<^verbatim>\<open>GetFileStats\<close> do nothing but call the C library,
  the kernel and the N-API host. Their model threads a state through these calls. What the
  environment answers is a parameter, the \<open>platform\<close>; what the calls change is the
  \<open>state\<close>: the open descriptors, the live mapped regions, the heap cells holding
  \<^verbatim>\<open>MmapInfo\<close> records, and the trace of the system calls made so far.
\<close>

text \<open>
  The failures a caller can observe. \<open>InvalidArgument\<close> belongs to the taxonomy of the
  specification; no statement of the source throws it. \<open>MappingError\<close> carries the message
  of the \<^verbatim>\<open>napi_throw_error\<close> call. \<open>HostError\<close> is the early return of the
  \<^verbatim>\<open>NAPI_CALL\<close> macro. \<open>Undefined\<close> stands for undefined behaviour of the C++ program: a
  division by zero, a write through a null pointer, a read of a freed record.
\<close>

datatype error =
    InvalidArgument
  | FileOpenError
  | MappingError string
  | StatError
  | HostError
  | Undefined

record os_file =
  content :: "byte list"
  mtime :: i64

text \<open>\<^verbatim>\<open>struct MmapInfo { void* mapped_addr; size_t mapped_len; }\<close>\<close>

record MmapInfo =
  mapped_addr :: addr
  mapped_len :: size_t

text \<open>
  A live mapping, as the call that made it asked for it: \<open>r_len\<close> bytes of address space
  from \<open>r_base\<close>, showing the bytes of the mapped file from file offset \<open>r_off\<close> on.
  A requested length of 0, which only \<^verbatim>\<open>MapViewOfFile\<close> accepts, stands for the rest of the
  file: \<open>region_extent\<close> is the number of bytes of address space the region covers.
\<close>

record region =
  r_base :: addr
  r_len :: size_t
  r_bytes :: "byte list"
  r_off :: u64

definition region_extent :: "region \<Rightarrow> size_t" where
  "region_extent r =
     (if r_len r = 0 then of_nat (length (r_bytes r)) - r_off r else r_len r)"

datatype os_call =
    Open string
  | Close int
  | Sysconf_PAGESIZE
  | GetSystemInfo
  | Mmap size_t int u64
  | Munmap addr size_t
  | Get_osfhandle int
  | CreateFileMapping int
  | MapViewOfFile int dword dword size_t
  | CloseHandle int
  | UnmapViewOfFile addr
  | Stat string

text \<open>
  The platform: whether the file was compiled with \<^verbatim>\<open>_WIN32\<close>; the allocation granularity
  the system reports; the files that exist; which paths the system refuses to open or to
  stat although they exist (permissions, descriptor limits); the address the kernel picks
  for a mapping of a given length at a given file offset, \<open>None\<close> when it refuses the
  request for a reason of its own (address space exhausted, range not acceptable for the
  object); whether \<^verbatim>\<open>_get_osfhandle\<close>, \<^verbatim>\<open>CreateFileMapping\<close> and \<^verbatim>\<open>malloc\<close> succeed; and
  whether the N-API calls that build the result succeed. Arguments arrive decoded: the
  calls that extract them from \<^verbatim>\<open>napi_callback_info\<close> are not part of the model.
\<close>

record platform =
  win32 :: bool
  granularity :: size_t
  files :: "string \<rightharpoonup> os_file"
  open_refused :: "string \<Rightarrow> bool"
  stat_refused :: "string \<Rightarrow> bool"
  map_choice :: "size_t \<Rightarrow> u64 \<Rightarrow> addr option"
  handle_ok :: bool
  mapping_object_ok :: bool
  malloc_ok :: bool
  napi_ok :: bool

record state =
  fds :: "int \<rightharpoonup> byte list"
  next_fd :: nat
  regions :: "region list"
  heap :: "nat \<rightharpoonup> MmapInfo"
  next_ptr :: nat
  trace :: "os_call list"

definition record_call :: "os_call \<Rightarrow> state \<Rightarrow> state" where
  "record_call c s = s\<lparr>trace := trace s @ [c]\<rparr>"

subsection \<open>System calls\<close>

text \<open>
  \<^verbatim>\<open>open(path, O_RDONLY | O_BINARY)\<close>: a fresh non-negative descriptor on the file's
  bytes, or -1.
\<close>

definition os_open :: "platform \<Rightarrow> state \<Rightarrow> string \<Rightarrow> int \<times> state" where
  "os_open P s path =
     (case files P path of
        None \<Rightarrow> (- 1, record_call (Open path) s)
      | Some f \<Rightarrow>
          if open_refused P path then (- 1, record_call (Open path) s)
          else (int (next_fd s),
                record_call (Open path)
                  (s\<lparr>fds := (fds s)(int (next_fd s) \<mapsto> content f), next_fd := Suc (next_fd s)\<rparr>)))"

definition os_close :: "state \<Rightarrow> int \<Rightarrow> state" where
  "os_close s fd = record_call (Close fd) (s\<lparr>fds := (fds s)(fd := None)\<rparr>)"

text \<open>
  What \<^verbatim>\<open>mmap\<close> and \<^verbatim>\<open>MapViewOfFile\<close> share: the file offset must be a multiple of the
  allocation granularity, and the kernel grants the request at an address of its choice or
  refuses it.
\<close>

definition map_region :: "platform \<Rightarrow> state \<Rightarrow> byte list \<Rightarrow> size_t \<Rightarrow> u64 \<Rightarrow> addr option \<times> state" where
  "map_region P s bytes len off =
     (if off mod granularity P \<noteq> 0 then (None, s)
      else (case map_choice P len off of
              None \<Rightarrow> (None, s)
            | Some a \<Rightarrow>
                (Some a,
                 s\<lparr>regions := \<lparr>r_base = a, r_len = len, r_bytes = bytes, r_off = off\<rparr> # regions s\<rparr>)))"

text \<open>
  \<^verbatim>\<open>mmap(NULL, len, PROT_READ, MAP_PRIVATE, fd, off)\<close>: \<open>None\<close> is \<^verbatim>\<open>MAP_FAILED\<close>. The call
  fails on a descriptor that is not open, on a zero length, on an offset that is not a
  multiple of the page size, and whenever the kernel refuses. It does not compare the
  range with the size of the file.
\<close>

definition os_mmap :: "platform \<Rightarrow> state \<Rightarrow> size_t \<Rightarrow> int \<Rightarrow> u64 \<Rightarrow> addr option \<times> state" where
  "os_mmap P s len fd off =
     (case fds s fd of
        None \<Rightarrow> (None, record_call (Mmap len fd off) s)
      | Some bytes \<Rightarrow>
          if len = 0 then (None, record_call (Mmap len fd off) s)
          else map_region P (record_call (Mmap len fd off) s) bytes len off)"

text \<open>
  \<^verbatim>\<open>munmap(addr, len)\<close> and \<^verbatim>\<open>UnmapViewOfFile(addr)\<close>. The table keeps whole regions: a
  call removes the live region it names, by base and length for \<^verbatim>\<open>munmap\<close>, by base for
  \<^verbatim>\<open>UnmapViewOfFile\<close>; any other call leaves the table as it is. Both results are ignored
  by the source.
\<close>

definition os_munmap :: "state \<Rightarrow> addr \<Rightarrow> size_t \<Rightarrow> state" where
  "os_munmap s a len =
     record_call (Munmap a len) (s\<lparr>regions := filter (\<lambda>r. \<not> (r_base r = a \<and> r_len r = len)) (regions s)\<rparr>)"

definition os_UnmapViewOfFile :: "state \<Rightarrow> addr \<Rightarrow> state" where
  "os_UnmapViewOfFile s a =
     record_call (UnmapViewOfFile a) (s\<lparr>regions := filter (\<lambda>r. r_base r \<noteq> a) (regions s)\<rparr>)"

text \<open>
  The Windows calls. A handle is named by the descriptor it was obtained from.
  \<^verbatim>\<open>MapViewOfFile\<close> takes the file offset as two \<^verbatim>\<open>DWORD\<close> halves; \<open>None\<close> is \<^verbatim>\<open>NULL\<close>.
  With \<^verbatim>\<open>dwNumberOfBytesToMap = 0\<close> the view extends from the offset to the end of the file,
  and the call fails if no byte of the file lies at or after the offset.
\<close>

definition os_get_osfhandle :: "platform \<Rightarrow> state \<Rightarrow> int \<Rightarrow> int option \<times> state" where
  "os_get_osfhandle P s fd =
     (if handle_ok P \<and> fds s fd \<noteq> None then Some fd else None, record_call (Get_osfhandle fd) s)"

definition os_CreateFileMapping :: "platform \<Rightarrow> state \<Rightarrow> int \<Rightarrow> int option \<times> state" where
  "os_CreateFileMapping P s h =
     (if mapping_object_ok P \<and> fds s h \<noteq> None then Some h else None, record_call (CreateFileMapping h) s)"

definition os_MapViewOfFile ::
  "platform \<Rightarrow> state \<Rightarrow> int \<Rightarrow> dword \<Rightarrow> dword \<Rightarrow> size_t \<Rightarrow> addr option \<times> state" where
  "os_MapViewOfFile P s h offsetHigh offsetLow len =
     (case fds s h of
        None \<Rightarrow> (None, record_call (MapViewOfFile h offsetHigh offsetLow len) s)
      | Some bytes \<Rightarrow>
          (let off = push_bit 32 (ucast offsetHigh) OR ucast offsetLow
           in if len = 0 \<and> length bytes \<le> unat off
              then (None, record_call (MapViewOfFile h offsetHigh offsetLow len) s)
              else map_region P (record_call (MapViewOfFile h offsetHigh offsetLow len) s)
                     bytes len off))"

definition os_CloseHandle :: "state \<Rightarrow> int \<Rightarrow> state" where
  "os_CloseHandle s h = record_call (CloseHandle h) s"

text \<open>\<^verbatim>\<open>malloc(sizeof(MmapInfo))\<close> followed by the two field writes, and \<^verbatim>\<open>free\<close>.\<close>

definition os_malloc :: "platform \<Rightarrow> state \<Rightarrow> (nat \<times> state) option" where
  "os_malloc P s = (if malloc_ok P then Some (next_ptr s, s\<lparr>next_ptr := Suc (next_ptr s)\<rparr>) else None)"

definition store_info :: "state \<Rightarrow> nat \<Rightarrow> MmapInfo \<Rightarrow> state" where
  "store_info s p info = s\<lparr>heap := (heap s)(p \<mapsto> info)\<rparr>"

definition os_free :: "state \<Rightarrow> nat \<Rightarrow> state" where
  "os_free s p = s\<lparr>heap := (heap s)(p := None)\<rparr>"



text \<open>
  Reading one byte of memory: the byte of the file behind the first live region that
  covers the address; \<open>None\<close> where no region covers it or the region reaches past the
  end of the file (no file byte is there: the read faults or sees zero fill).
\<close>

definition read_byte :: "state \<Rightarrow> addr \<Rightarrow> byte option" where
  "read_byte s x =
     (case find (\<lambda>r. x - r_base r < region_extent r) (regions s) of
        None \<Rightarrow> None
      | Some r \<Rightarrow>
          (let k = unat (r_off r) + unat (x - r_base r)
           in if k < length (r_bytes r) then Some (r_bytes r ! k) else None))"

subsection \<open>Host buffers\<close>

text \<open>
  \<^verbatim>\<open>napi_create_buffer(env, size, ...)\<close> makes a buffer the host owns, with no finalizer.
  \<^verbatim>\<open>napi_create_external_buffer(env, length, data, finalize_cb, finalize_hint, ...)\<close> wraps
  memory the host does not own and remembers the callback and its hint. The only function
  the source passes as a finalizer is \<^verbatim>\<open>UnmapCallback\<close>.
\<close>

datatype finalize_cb = Cb_UnmapCallback

datatype napi_buffer =
    Buffer nat
  | ExternalBuffer addr size_t finalize_cb "nat option"

fun buffer_length :: "napi_buffer \<Rightarrow> nat" where
  "buffer_length (Buffer n) = n"
| "buffer_length (ExternalBuffer d l cb hint) = unat l"

fun buffer_bytes :: "state \<Rightarrow> napi_buffer \<Rightarrow> byte option list" where
  "buffer_bytes s (Buffer n) = replicate n None"
| "buffer_bytes s (ExternalBuffer d l cb hint) = map (\<lambda>i. read_byte s (d + of_nat i)) [0..<unat l]"

fun finalizer :: "napi_buffer \<Rightarrow> (finalize_cb \<times> nat option) option" where
  "finalizer (Buffer n) = None"
| "finalizer (ExternalBuffer d l cb hint) = Some (cb, hint)"

section \<open>Mapped region reader: \<^verbatim>\<open>UnmapCallback\<close>, \<^verbatim>\<open>GetAllocationGranularity\<close>, \<^verbatim>\<open>FastReadFile\<close>\<close>

text \<open>
  \<^verbatim>\<open>UnmapCallback(env, data, hint)\<close>: nothing on a null hint; otherwise the region recorded in
  the \<^verbatim>\<open>MmapInfo\<close> is unmapped and the record freed. Reading a record that is not allocated
  is undefined behaviour.
\<close>

definition UnmapCallback :: "platform \<Rightarrow> state \<Rightarrow> nat option \<Rightarrow> error + state" where
  "UnmapCallback P s hint =
     (case hint of
        None \<Rightarrow> Inr s
      | Some p \<Rightarrow>
          (case heap s p of
             None \<Rightarrow> Inl Undefined
           | Some info \<Rightarrow>
               (let s1 = (if win32 P then os_UnmapViewOfFile s (mapped_addr info)
                          else os_munmap s (mapped_addr info) (mapped_len info))
                in Inr (os_free s1 p))))"

fun run_finalizer :: "platform \<Rightarrow> state \<Rightarrow> napi_buffer \<Rightarrow> error + state" where
  "run_finalizer P s (Buffer n) = Inr s"
| "run_finalizer P s (ExternalBuffer d l Cb_UnmapCallback hint) = UnmapCallback P s hint"

definition GetAllocationGranularity :: "platform \<Rightarrow> state \<Rightarrow> size_t \<times> state" where
  "GetAllocationGranularity P s =
     (granularity P, record_call (if win32 P then GetSystemInfo else Sysconf_PAGESIZE) s)"

text \<open>
  Lines 145-148. \<^verbatim>\<open>offset / granularity\<close> divides an \<^verbatim>\<open>int64_t\<close> by a \<^verbatim>\<open>size_t\<close>: the offset
  is converted to unsigned and the division, the product and the conversions that follow
  all work modulo \<open>2 ^ 64\<close>. The triple is \<open>(aligned_offset, padding, map_length)\<close>.
\<close>

definition mapping_params :: "size_t \<Rightarrow> i64 \<Rightarrow> i64 \<Rightarrow> i64 \<times> size_t \<times> size_t" where
  "mapping_params g offset len =
     (let aligned_offset = (offset div g) * g;
          padding = offset - aligned_offset;
          map_length = len + padding
      in (aligned_offset, padding, map_length))"

text \<open>
  Lines 193-201: the \<^verbatim>\<open>MmapInfo\<close> record is allocated and filled without a null check, and
  the external buffer is created over \<^verbatim>\<open>(char*)mapped_addr + padding\<close>.
\<close>

definition wrap_mapping :: "platform \<Rightarrow> state \<Rightarrow> addr \<Rightarrow> size_t \<Rightarrow> size_t \<Rightarrow> i64 \<Rightarrow> (error + napi_buffer) \<times> state" where
  "wrap_mapping P s mapped map_length padding len =
     (case os_malloc P s of
        None \<Rightarrow> (Inl Undefined, s)
      | Some (map_info, s1) \<Rightarrow>
          (let s2 = store_info s1 map_info \<lparr>mapped_addr = mapped, mapped_len = map_length\<rparr>
           in if napi_ok P
              then (Inr (ExternalBuffer (mapped + padding) len Cb_UnmapCallback (Some map_info)), s2)
              else (Inl HostError, s2)))"

text \<open>Lines 179-191 without \<^verbatim>\<open>_WIN32\<close>.\<close>

definition map_posix ::
  "platform \<Rightarrow> state \<Rightarrow> int \<Rightarrow> i64 \<Rightarrow> size_t \<Rightarrow> (error + addr) \<times> state" where
  "map_posix P s fd aligned_offset map_length =
     (let (mapped, s1) = os_mmap P s map_length fd aligned_offset;
          s2 = os_close s1 fd
      in case mapped of
           None \<Rightarrow> (Inl (MappingError ''Failed to map file''), s2)
         | Some a \<Rightarrow> (Inr a, s2))"

text \<open>Lines 153-191 with \<^verbatim>\<open>_WIN32\<close>.\<close>

definition map_win32 ::
  "platform \<Rightarrow> state \<Rightarrow> int \<Rightarrow> i64 \<Rightarrow> size_t \<Rightarrow> (error + addr) \<times> state" where
  "map_win32 P s fd aligned_offset map_length =
     (let (fileHandle, s1) = os_get_osfhandle P s fd
      in case fileHandle of
           None \<Rightarrow> (Inl (MappingError ''Failed to get file handle''), os_close s1 fd)
         | Some fh \<Rightarrow>
             (let (mappingHandle, s2) = os_CreateFileMapping P s1 fh
              in case mappingHandle of
                   None \<Rightarrow> (Inl (MappingError ''Failed to create file mapping''), os_close s2 fd)
                 | Some mh \<Rightarrow>
                     (let offsetHigh = (ucast (signed_drop_bit 32 aligned_offset) :: dword);
                          offsetLow = (ucast (aligned_offset AND 0xFFFFFFFF) :: dword);
                          (mapped, s3) = os_MapViewOfFile P s2 mh offsetHigh offsetLow map_length;
                          s4 = os_CloseHandle s3 mh;
                          s5 = os_close s4 fd
                      in case mapped of
                           None \<Rightarrow> (Inl (MappingError ''Failed to map file''), s5)
                         | Some a \<Rightarrow> (Inr a, s5))))"

text \<open>
  \<^verbatim>\<open>FastReadFile\<close> from line 128 on, with the decoded arguments \<open>path\<close>, \<open>offset\<close> and
  \<open>len\<close> (the source's \<^verbatim>\<open>length\<close>). The result is paired with the state the call leaves
  behind, on failure too. A reported granularity of zero makes the division of line 146
  undefined; the source has no check of \<open>offset\<close> or \<open>len\<close> other than \<^verbatim>\<open>length == 0\<close>.
\<close>

definition FastReadFile ::
  "platform \<Rightarrow> state \<Rightarrow> string \<Rightarrow> i64 \<Rightarrow> i64 \<Rightarrow> (error + napi_buffer) \<times> state" where
  "FastReadFile P s path offset len =
     (let (fd, s1) = os_open P s path
      in if fd < 0 then (Inl FileOpenError, s1)
         else if len = 0 then
           (let s2 = os_close s1 fd
            in if napi_ok P then (Inr (Buffer 0), s2) else (Inl HostError, s2))
         else
           (let (g, s2) = GetAllocationGranularity P s1
            in if g = 0 then (Inl Undefined, s2)
               else
                 (let (aligned_offset, padding, map_length) = mapping_params g offset len;
                      (mapped, s3) = (if win32 P then map_win32 P s2 fd aligned_offset map_length
                                      else map_posix P s2 fd aligned_offset map_length)
                  in case mapped of
                       Inl e \<Rightarrow> (Inl e, s3)
                     | Inr a \<Rightarrow> wrap_mapping P s3 a map_length padding len)))"


section \<open>Path metadata: \<^verbatim>\<open>GetFileStats\<close>\<close>







subsection \<open>A concrete platform for the examples\<close>

text \<open>
  A POSIX system with allocation granularity 4 and one file \<^verbatim>\<open>f\<close> of ten bytes; the kernel
  places every mapping at address 4096. The Windows variant differs in the flag only.
\<close>

definition example_files :: "string \<rightharpoonup> os_file" where
  "example_files = [''f'' \<mapsto> \<lparr>content = [10, 11, 12, 13, 14, 15, 16, 17, 18, 19], mtime = 1700000000\<rparr>]"

definition example_posix :: platform where
  "example_posix =
     \<lparr>win32 = False, granularity = 4, files = example_files,
      open_refused = (\<lambda>p. False), stat_refused = (\<lambda>p. False),
      map_choice = (\<lambda>len off. Some 4096),
      handle_ok = True, mapping_object_ok = True, malloc_ok = True, napi_ok = True\<rparr>"

definition example_win32 :: platform where
  "example_win32 = example_posix\<lparr>win32 := True\<rparr>"

text \<open>The same system with a kernel that refuses every mapping.\<close>

definition example_refusing :: platform where
  "example_refusing = example_posix\<lparr>map_choice := (\<lambda>len off. None)\<rparr>"

text \<open>
  A Linux-like system with pages of 4096 bytes, whose \<^verbatim>\<open>mmap\<close> grants every request; a
  Windows system whose \<^verbatim>\<open>MapViewOfFile\<close> refuses every view that reaches past the tenth
  byte, the end of the file \<^verbatim>\<open>f\<close>; and a system with a file \<^verbatim>\<open>t\<close> whose modification time is
  \<open>2 ^ 53 + 1\<close> seconds.
\<close>

definition example_pages :: platform where
  "example_pages = example_posix\<lparr>granularity := 4096\<rparr>"

definition example_bounded :: platform where
  "example_bounded =
     example_win32\<lparr>map_choice := (\<lambda>len off. if unat off + unat len \<le> 10 then Some 4096 else None)\<rparr>"


definition initial_state :: state where
  "initial_state = \<lparr>fds = Map.empty, next_fd = 3, regions = [], heap = Map.empty, next_ptr = 0, trace = []\<rparr>"

section \<open>Properties of the fingerprint\<close>

text \<open>\<open>le64\<close> is the little-endian reading: the byte at position \<open>k\<close> has weight \<open>2 ^ (8 * k)\<close>.\<close>

lemma le64_eight:
  "le64 [b0, b1, b2, b3, b4, b5, b6, b7] =
     ucast b0 + ucast b1 * 2 ^ 8 + ucast b2 * 2 ^ 16 + ucast b3 * 2 ^ 24 +
     ucast b4 * 2 ^ 32 + ucast b5 * 2 ^ 40 + ucast b6 * 2 ^ 48 + ucast b7 * 2 ^ 56"
  by (simp add: le64_def algebra_simps)


lemma lanes_of_add: "lanes_of (mm256_add_epi64 a c) = add_lanes (lanes_of a) (lanes_of c)"
  by (cases a; cases c) (simp add: lanes_of_def add_lanes_def)

lemma fold_lanes_xor: "foldl (XOR) 0 (lanes_of a) = fold_lanes a"
  by (cases a) (simp add: lanes_of_def xor.assoc)

lemma load_u64_take_drop:
  "p + 8 \<le> length bytes \<Longrightarrow> load_u64 bytes p = le64 (take 8 (drop p bytes))"
proof -
  assume h: "p + 8 \<le> length bytes"
  have "take 8 (drop p bytes) = map (\<lambda>j. bytes ! (p + j)) [0..<8]"
    using h by (intro nth_equalityI) auto
  then show ?thesis by (simp add: load_u64_def)
qed

lemma lanes_of_load:
  assumes "i + 32 \<le> length bytes"
  shows "lanes_of (mm256_loadu_si256 bytes i) = chunk_lanes (take 32 (drop i bytes))"
proof -
  have t: "\<And>k. k \<le> 24 \<Longrightarrow> take 8 (drop k (take 32 (drop i bytes))) = take 8 (drop (i + k) bytes)"
    by (simp add: drop_take add.commute)
  have u: "[0..<4] = [0, 1, 2, 3::nat]" by (simp add: upt_rec)
  show ?thesis
    using assms t[of 0] t[of 8] t[of 16] t[of 24]
    by (simp add: lanes_of_def mm256_loadu_si256_def chunk_lanes_def load_u64_take_drop u)
qed

lemma vector_loop_spec:
  "i \<le> length bytes \<Longrightarrow>
   lanes_of (snd (vector_loop bytes i acc)) =
     foldl add_lanes (lanes_of acc) (map chunk_lanes (full_chunks (drop i bytes))) \<and>
   drop (fst (vector_loop bytes i acc)) bytes = remaining_bytes (drop i bytes) \<and>
   fst (vector_loop bytes i acc) \<le> length bytes"
proof (induction bytes i acc rule: vector_loop.induct)
  case (1 bytes i acc)
  show ?case
  proof (cases "i + 32 \<le> length bytes")
    case True
    then have ih: "lanes_of (snd (vector_loop bytes (i + 32) (mm256_add_epi64 acc (mm256_loadu_si256 bytes i)))) =
        foldl add_lanes (lanes_of (mm256_add_epi64 acc (mm256_loadu_si256 bytes i)))
          (map chunk_lanes (full_chunks (drop (i + 32) bytes))) \<and>
      drop (fst (vector_loop bytes (i + 32) (mm256_add_epi64 acc (mm256_loadu_si256 bytes i)))) bytes =
        remaining_bytes (drop (i + 32) bytes) \<and>
      fst (vector_loop bytes (i + 32) (mm256_add_epi64 acc (mm256_loadu_si256 bytes i))) \<le> length bytes"
      using "1.IH" by simp
    have nl: "\<not> length (drop i bytes) < 32" using True by simp
    have fc: "full_chunks (drop i bytes) = take 32 (drop i bytes) # full_chunks (drop (i + 32) bytes)"
      by (subst full_chunks.simps) (simp only: nl if_False drop_drop add.commute)
    have rb: "remaining_bytes (drop i bytes) = remaining_bytes (drop (i + 32) bytes)"
      by (subst remaining_bytes.simps) (simp only: nl if_False drop_drop add.commute)
    have vl: "vector_loop bytes i acc = vector_loop bytes (i + 32) (mm256_add_epi64 acc (mm256_loadu_si256 bytes i))"
      using True by (subst vector_loop.simps) simp
    show ?thesis
      using ih True by (simp only: vl fc rb list.map foldl_Cons lanes_of_add lanes_of_load) 
  next
    case False
    have vl: "vector_loop bytes i acc = (i, acc)"
      using False by (subst vector_loop.simps) simp
    have sl: "length (drop i bytes) < 32" using False by simp
    have fc: "full_chunks (drop i bytes) = []"
      by (subst full_chunks.simps) (simp only: sl if_True)
    have rb: "remaining_bytes (drop i bytes) = drop i bytes"
      by (subst remaining_bytes.simps) (simp only: sl if_True)
    show ?thesis using "1.prems" by (simp add: vl fc rb)
  qed
qed

lemma scalar_loop_foldl: "scalar_loop bytes i hash = foldl scalar_step hash (drop i bytes)"
proof (induction bytes i hash rule: scalar_loop.induct)
  case (1 bytes i hash)
  show ?case
  proof (cases "i < length bytes")
    case True
    have d: "drop i bytes = bytes ! i # drop (i + 1) bytes"
      using True by (simp add: Cons_nth_drop_Suc)
    have "scalar_loop bytes i hash = scalar_loop bytes (i + 1) (hash * 31 + ucast (bytes ! i))"
      using True by (subst scalar_loop.simps) simp
    then show ?thesis using "1.IH"[OF True] by (simp add: d scalar_step_def)
  next
    case False
    then show ?thesis by (subst scalar_loop.simps) simp
  qed
qed

lemma remaining_short: "length b < 32 \<Longrightarrow> remaining_bytes b = b \<and> full_chunks b = []"
  by (simp add: remaining_bytes.simps full_chunks.simps)

lemma checksum_x86_64_spec: "checksum_x86_64 bytes = spec_hash_vector bytes"
proof (cases "32 \<le> length bytes")
  case True
  obtain i acc where v: "vector_loop bytes 0 mm256_setzero_si256 = (i, acc)"
    by (cases "vector_loop bytes 0 mm256_setzero_si256")
  have z: "lanes_of mm256_setzero_si256 = [0, 0, 0, 0]"
    by (simp add: lanes_of_def mm256_setzero_si256_def)
  from vector_loop_spec[of 0 bytes mm256_setzero_si256] v z
  have a: "lanes_of acc = foldl add_lanes [0, 0, 0, 0] (map chunk_lanes (full_chunks bytes))"
    and r: "drop i bytes = remaining_bytes bytes" by simp_all
  have "checksum_x86_64 bytes = foldl scalar_step (fold_lanes acc) (drop i bytes)"
    using True v by (simp add: checksum_x86_64_def vector_phase_def scalar_loop_foldl)
  also have "\<dots> = spec_hash_vector bytes"
    unfolding spec_hash_vector_def Let_def a[symmetric] r[symmetric] fold_lanes_xor ..
  finally show ?thesis .
next
  case False
  then have s: "length bytes < 32" by simp
  have "checksum_x86_64 bytes = foldl scalar_step 0 bytes"
    using False by (simp add: checksum_x86_64_def vector_phase_def scalar_loop_foldl)
  also have "\<dots> = spec_hash_vector bytes"
    using s by (simp add: spec_hash_vector_def remaining_short)
  finally show ?thesis .
qed

lemma checksum_fallback_spec: "checksum_fallback bytes = spec_hash_scalar bytes"
  by (simp add: checksum_fallback_def spec_hash_scalar_def scalar_loop_foldl)




lemma hex_digit_0: "hex_digit 0 = CHR ''0''"
  by (simp add: hex_digit_def)

lemma hex_fixed_0: "hex_fixed k 0 = replicate k CHR ''0''"
  by (induction k) (simp_all add: hex_digit_0 replicate_append_same)

lemma length_hex_fixed: "length (hex_fixed k n) = k"
  by (induction k arbitrary: n) simp_all

lemma hex_digits_pad:
  "n < 16 ^ Suc k \<Longrightarrow>
     length (hex_digits n) \<le> Suc k \<and>
     replicate (Suc k - length (hex_digits n)) CHR ''0'' @ hex_digits n = hex_fixed (Suc k) n"
proof (induction k arbitrary: n)
  case 0
  then have "hex_digits n = [hex_digit n]" by (subst hex_digits.simps) simp
  with 0 show ?case by simp
next
  case (Suc k)
  show ?case
  proof (cases "n < 16")
    case True
    then have "hex_digits n = [hex_digit n]" by (subst hex_digits.simps) simp
    with True show ?thesis by (simp add: hex_fixed_0 replicate_append_same)
  next
    case False
    then have e: "hex_digits n = hex_digits (n div 16) @ [hex_digit (n mod 16)]"
      by (subst hex_digits.simps) simp
    have "n div 16 < 16 ^ Suc k" using Suc.prems by (simp add: less_mult_imp_div_less)
    from Suc.IH[OF this] show ?thesis by (simp add: e Suc_diff_le)
  qed
qed

lemma hex_fixed_map:
  "hex_fixed k n = map (\<lambda>j. hex_digit (n div 16 ^ (k - 1 - j) mod 16)) [0..<k]"
proof (induction k arbitrary: n)
  case 0
  show ?case by simp
next
  case (Suc k)
  have "\<And>j. j < k \<Longrightarrow> n div 16 div 16 ^ (k - 1 - j) = n div 16 ^ (k - j)"
  proof -
    fix j assume "j < k"
    then have "k - j = Suc (k - 1 - j)" by simp
    then show "n div 16 div 16 ^ (k - 1 - j) = n div 16 ^ (k - j)"
      by (simp add: div_mult2_eq)
  qed
  then show ?case by (simp add: Suc.IH)
qed

lemma snprintf_016llx_spec: "take 16 (snprintf_016llx 17 h) = spec_hex16 h"
proof -
  have "unat h < 2 ^ 64" using unsigned_less[of h] by simp
  then have b: "unat h < 16 ^ Suc 15" by simp
  from hex_digits_pad[OF b]
  have p: "replicate (16 - length (hex_digits (unat h))) CHR ''0'' @ hex_digits (unat h) = hex_fixed 16 (unat h)"
    by simp
  have "snprintf_016llx 17 h = take 16 (hex_fixed 16 (unat h))"
    by (simp only: snprintf_016llx_def Let_def p) simp
  then have "take 16 (snprintf_016llx 17 h) = hex_fixed 16 (unat h)"
    by (simp add: length_hex_fixed)
  then show ?thesis by (simp add: hex_fixed_map spec_hex16_def)
qed

lemma hex_digit_lower: "d < 16 \<Longrightarrow> hex_digit d \<in> set ''0123456789abcdef''"
  unfolding hex_digit_def by (rule nth_mem) simp

lemma spec_hex16_props: "length (spec_hex16 h) = 16 \<and> lowercase_hex (spec_hex16 h)"
  by (simp add: spec_hex16_def lowercase_hex_def list_all_iff hex_digit_lower del: set_simps)

lemma zero_hex: "spec_hex16 0 = ''0000000000000000''"
  by (simp add: spec_hex16_def hex_digit_def upt_rec)


section \<open>Arithmetic of the mapping parameters\<close>


lemma nonneg_sint_unat:
  fixes x :: "64 word"
  assumes "0 \<le> sint x"
  shows "sint x = int (unat x)" and "unat x < 2 ^ 63"
proof -
  have lt: "sint x < 2 ^ 63" using sint_lt[of x] by simp
  have "uint x = take_bit 64 (sint x)" using uint_sint[of x] by simp
  also have "\<dots> = sint x" using assms lt by (simp add: take_bit_int_eq_self)
  finally show e: "sint x = int (unat x)" by simp
  have u: "unat x = nat (sint x)" unfolding e by (rule nat_int [symmetric])
  have "sint x < 9223372036854775808" using lt by simp
  then have "nat (sint x) < 9223372036854775808" using assms by linarith
  then show "unat x < 2 ^ 63" unfolding u by simp
qed

lemma unat_aligned:
  fixes offset g :: "64 word"
  shows "unat ((offset div g) * g) = (unat offset div unat g) * unat g"
proof -
  have "unat (offset div g) * unat g \<le> unat offset"
    by (simp add: unat_div)
  also have "unat offset < 2 ^ LENGTH(64)" by (rule unsigned_less)
  finally have "unat (offset div g) * unat g < 2 ^ LENGTH(64)" .
  then have "unat ((offset div g) * g) = unat (offset div g) * unat g"
    by (simp only: unat_mult_lem)
  then show ?thesis by (simp add: unat_div)
qed

lemma aligned_le:
  fixes offset g :: "64 word"
  shows "(offset div g) * g \<le> offset"
  by (simp add: word_le_nat_alt unat_aligned)

lemma unat_padding:
  fixes offset g :: "64 word"
  shows "unat (offset - (offset div g) * g) = unat offset mod unat g"
proof -
  have "unat (offset - (offset div g) * g) = unat offset - unat ((offset div g) * g)"
    by (rule unat_sub) (rule aligned_le)
  also have "\<dots> = unat offset mod unat g"
    by (simp add: unat_aligned minus_div_mult_eq_mod)
  finally show ?thesis .
qed

lemma aligned_mod:
  fixes offset g :: "64 word"
  shows "((offset div g) * g) mod g = 0"
proof -
  have "unat (((offset div g) * g) mod g) = 0"
    by (simp add: unat_mod unat_aligned)
  then show ?thesis by (simp add: unat_eq_0)
qed

lemma unat_map_length:
  fixes offset len g :: "64 word"
  assumes "0 \<le> sint offset" "0 \<le> sint len"
  shows "unat (len + (offset - (offset div g) * g)) = unat len + unat offset mod unat g"
proof -
  have a: "unat offset mod unat g \<le> unat offset" by (rule mod_less_eq_dividend)
  have b: "unat offset < 2 ^ 63" "unat len < 2 ^ 63"
    using assms nonneg_sint_unat(2) by blast+
  have b': "unat offset < 9223372036854775808" "unat len < 9223372036854775808"
    using b by simp_all
  have "unat len + unat offset mod unat g < 18446744073709551616" using a b' by linarith
  then have "unat len + unat offset mod unat g < 2 ^ 64" by simp
  then have "unat len + unat (offset - (offset div g) * g) < 2 ^ LENGTH(64)"
    by (simp add: unat_padding)
  then have "unat (len + (offset - (offset div g) * g)) = unat len + unat (offset - (offset div g) * g)"
    by (simp only: unat_add_lem)
  then show ?thesis by (simp add: unat_padding)
qed

lemma win32_offset_halves:
  fixes a :: "64 word"
  shows "push_bit 32 (ucast (ucast (signed_drop_bit 32 a) :: 32 word)) OR
         ucast (ucast (a AND 0xFFFFFFFF) :: 32 word) = a"
proof -
  have m: "(0xFFFFFFFF :: 64 word) = mask 32" by (simp add: mask_eq_exp_minus_1)
  show ?thesis
    unfolding m
  proof (rule bit_word_eqI)
    fix n assume n: "n < LENGTH(64)"
    show "bit (push_bit 32 (ucast (ucast (signed_drop_bit 32 a) :: 32 word)) OR
               ucast (ucast (a AND mask 32) :: 32 word) :: 64 word) n \<longleftrightarrow> bit a n"
    proof (cases "n < 32")
      case True
      then show ?thesis using n by (simp add: bit_simps)
    next
      case False
      then have e: "32 + (n - 32) = n" by simp
      have f: "\<not> 32 \<le> n - 32" "n - 32 < 64" "n - 32 < 32" using n by simp_all
      show ?thesis using False n by (simp add: bit_simps e f)
    qed
  qed
qed

lemma small_unat_sint:
  fixes x :: "64 word"
  assumes "unat x < 2 ^ 63"
  shows "sint x = int (unat x)"
proof -
  have "int (unat x) < int (2 ^ 63)" using assms by (simp only: of_nat_less_iff)
  then have a: "uint x < 2 ^ 63" by simp
  have "(0::int) \<le> 2 ^ 63" by simp
  then have b: "- (2 ^ 63) \<le> uint x" using uint_nonnegative[of x] by linarith
  have "signed_take_bit 63 (uint x) = uint x" using b a by (rule signed_take_bit_int_eq_self)
  then have "sint x = uint x" by (simp add: sint_uint)
  then show ?thesis by simp
qed


section \<open>The paths through \<^verbatim>\<open>FastReadFile\<close>\<close>


lemmas os_defs = os_open_def os_close_def os_mmap_def map_region_def os_get_osfhandle_def
  os_CreateFileMapping_def os_MapViewOfFile_def os_CloseHandle_def os_malloc_def store_info_def
  record_call_def GetAllocationGranularity_def

lemma mapping_params_aligned:
  "mapping_params g offset len = (a, p, m) \<Longrightarrow> a mod g = 0"
  by (auto simp: mapping_params_def Let_def aligned_mod)

lemma FastReadFile_success:
  assumes f: "files P path = Some f" "\<not> open_refused P path"
    and len: "len \<noteq> 0" and g: "granularity P \<noteq> 0"
    and mp: "mapping_params (granularity P) offset len = (a, p, m)"
    and m: "m \<noteq> 0 \<or> (win32 P \<and> unat a < length (content f))"
    and mc: "map_choice P m a = Some base"
    and w: "win32 P \<longrightarrow> handle_ok P \<and> mapping_object_ok P"
    and ok: "malloc_ok P" "napi_ok P"
  shows "fst (FastReadFile P s path offset len)
           = Inr (ExternalBuffer (base + p) len Cb_UnmapCallback (Some (next_ptr s)))"
    and "regions (snd (FastReadFile P s path offset len))
           = \<lparr>r_base = base, r_len = m, r_bytes = content f, r_off = a\<rparr> # regions s"
    and "heap (snd (FastReadFile P s path offset len))
           = (heap s)(next_ptr s \<mapsto> \<lparr>mapped_addr = base, mapped_len = m\<rparr>)"
    and "fds (snd (FastReadFile P s path offset len)) = (fds s)(int (next_fd s) := None)"
    and "trace (snd (FastReadFile P s path offset len)) =
           trace s @
           (if win32 P
            then [Open path, GetSystemInfo, Get_osfhandle (int (next_fd s)),
                  CreateFileMapping (int (next_fd s)),
                  MapViewOfFile (int (next_fd s)) (ucast (signed_drop_bit 32 a))
                    (ucast (a AND 0xFFFFFFFF)) m,
                  CloseHandle (int (next_fd s)), Close (int (next_fd s))]
            else [Open path, Sysconf_PAGESIZE, Mmap m (int (next_fd s)) a, Close (int (next_fd s))])"
proof -
  have al: "a mod granularity P = 0" using mp by (rule mapping_params_aligned)
  show "fst (FastReadFile P s path offset len)
           = Inr (ExternalBuffer (base + p) len Cb_UnmapCallback (Some (next_ptr s)))"
    using assms al
    by (auto simp add: FastReadFile_def map_posix_def map_win32_def wrap_mapping_def os_defs Let_def
      win32_offset_halves)
  show "regions (snd (FastReadFile P s path offset len))
           = \<lparr>r_base = base, r_len = m, r_bytes = content f, r_off = a\<rparr> # regions s"
    using assms al
    by (auto simp add: FastReadFile_def map_posix_def map_win32_def wrap_mapping_def os_defs Let_def
      win32_offset_halves)
  show "heap (snd (FastReadFile P s path offset len))
           = (heap s)(next_ptr s \<mapsto> \<lparr>mapped_addr = base, mapped_len = m\<rparr>)"
    using assms al
    by (auto simp add: FastReadFile_def map_posix_def map_win32_def wrap_mapping_def os_defs Let_def
      win32_offset_halves)
  show "fds (snd (FastReadFile P s path offset len)) = (fds s)(int (next_fd s) := None)"
    using assms al
    by (auto simp add: FastReadFile_def map_posix_def map_win32_def wrap_mapping_def os_defs Let_def
      win32_offset_halves)
  show "trace (snd (FastReadFile P s path offset len)) =
           trace s @
           (if win32 P
            then [Open path, GetSystemInfo, Get_osfhandle (int (next_fd s)),
                  CreateFileMapping (int (next_fd s)),
                  MapViewOfFile (int (next_fd s)) (ucast (signed_drop_bit 32 a))
                    (ucast (a AND 0xFFFFFFFF)) m,
                  CloseHandle (int (next_fd s)), Close (int (next_fd s))]
            else [Open path, Sysconf_PAGESIZE, Mmap m (int (next_fd s)) a, Close (int (next_fd s))])"
    using assms al
    by (auto simp add: FastReadFile_def map_posix_def map_win32_def wrap_mapping_def os_defs Let_def
      win32_offset_halves)
qed

text \<open>Whenever a buffer backed by a mapping comes back, the call took the success path.\<close>

lemma FastReadFile_external_inv:
  assumes "fst (FastReadFile P s path offset len) = Inr (ExternalBuffer d l cb hint)"
    and "mapping_params (granularity P) offset len = (a, p, m)"
  shows "\<exists>f base. files P path = Some f \<and> \<not> open_refused P path \<and> len \<noteq> 0 \<and> granularity P \<noteq> 0
           \<and> (m \<noteq> 0 \<or> (win32 P \<and> unat a < length (content f)))
           \<and> map_choice P m a = Some base
           \<and> (win32 P \<longrightarrow> handle_ok P \<and> mapping_object_ok P) \<and> malloc_ok P \<and> napi_ok P"
  using assms
  by (auto simp: FastReadFile_def map_posix_def map_win32_def wrap_mapping_def os_defs Let_def
      win32_offset_halves split: option.splits if_splits prod.splits)

lemma read_byte_head:
  assumes "x - base < m" and "unat a + unat (x - base) < length bytes"
  shows "read_byte (s\<lparr>regions := \<lparr>r_base = base, r_len = m, r_bytes = bytes, r_off = a\<rparr> # rs\<rparr>) x
           = Some (bytes ! (unat a + unat (x - base)))"
proof -
  have "m \<noteq> 0" using assms(1) by auto
  then show ?thesis using assms by (simp add: read_byte_def region_extent_def Let_def)
qed

lemma read_byte_regions:
  "regions s = regions s' \<Longrightarrow> read_byte s x = read_byte s' x"
  by (simp add: read_byte_def)

lemma UnmapCallback_live:
  assumes "heap s ptr = Some \<lparr>mapped_addr = base, mapped_len = m\<rparr>"
  shows "\<exists>s'. UnmapCallback P s (Some ptr) = Inr s'
       \<and> trace s' = trace s @ [if win32 P then UnmapViewOfFile base else Munmap base m]
       \<and> regions s' = (if win32 P then filter (\<lambda>r. r_base r \<noteq> base) (regions s)
                        else filter (\<lambda>r. \<not> (r_base r = base \<and> r_len r = m)) (regions s))
       \<and> heap s' = (heap s)(ptr := None)"
  using assms
  by (simp add: UnmapCallback_def os_munmap_def os_UnmapViewOfFile_def os_free_def record_call_def)

lemma mapping_call_traced:
  assumes "0 \<le> fst (os_open P s path)" and "len \<noteq> 0" and "granularity P \<noteq> 0"
    and "mapping_params (granularity P) offset len = (a, p, m)"
    and "win32 P \<longrightarrow> handle_ok P \<and> mapping_object_ok P"
  shows "take (length (trace s) + (if win32 P then 5 else 3))
           (trace (snd (FastReadFile P s path offset len))) =
         trace s @
           (if win32 P
            then [Open path, GetSystemInfo, Get_osfhandle (fst (os_open P s path)),
                  CreateFileMapping (fst (os_open P s path)),
                  MapViewOfFile (fst (os_open P s path)) (ucast (signed_drop_bit 32 a))
                    (ucast (a AND 0xFFFFFFFF)) m]
            else [Open path, Sysconf_PAGESIZE, Mmap m (fst (os_open P s path)) a])"
  using assms
  by (auto simp: FastReadFile_def map_posix_def map_win32_def wrap_mapping_def os_defs Let_def
      split: option.splits if_splits prod.splits)

subsection \<open>The example platforms, evaluated\<close>

lemma example_posix_fields:
  "win32 example_posix = False" "granularity example_posix = 4"
  "files example_posix = example_files"
  "open_refused example_posix = (\<lambda>p. False)" "stat_refused example_posix = (\<lambda>p. False)"
  "map_choice example_posix = (\<lambda>len off. Some 4096)"
  "handle_ok example_posix = True" "mapping_object_ok example_posix = True"
  "malloc_ok example_posix = True" "napi_ok example_posix = True"
  by (simp_all add: example_posix_def)

lemma example_win32_fields:
  "win32 example_win32 = True" "granularity example_win32 = 4"
  "files example_win32 = example_files"
  "open_refused example_win32 = (\<lambda>p. False)" "stat_refused example_win32 = (\<lambda>p. False)"
  "map_choice example_win32 = (\<lambda>len off. Some 4096)"
  "handle_ok example_win32 = True" "mapping_object_ok example_win32 = True"
  "malloc_ok example_win32 = True" "napi_ok example_win32 = True"
  by (simp_all add: example_win32_def example_posix_def)

lemma example_refusing_fields:
  "win32 example_refusing = False" "granularity example_refusing = 4"
  "files example_refusing = example_files"
  "open_refused example_refusing = (\<lambda>p. False)" "stat_refused example_refusing = (\<lambda>p. False)"
  "map_choice example_refusing = (\<lambda>len off. None)"
  "handle_ok example_refusing = True" "mapping_object_ok example_refusing = True"
  "malloc_ok example_refusing = True" "napi_ok example_refusing = True"
  by (simp_all add: example_refusing_def example_posix_def)

lemma example_pages_fields:
  "win32 example_pages = False" "granularity example_pages = 4096"
  "files example_pages = example_files"
  "open_refused example_pages = (\<lambda>p. False)" "stat_refused example_pages = (\<lambda>p. False)"
  "map_choice example_pages = (\<lambda>len off. Some 4096)"
  "handle_ok example_pages = True" "mapping_object_ok example_pages = True"
  "malloc_ok example_pages = True" "napi_ok example_pages = True"
  by (simp_all add: example_pages_def example_posix_def)

lemma example_bounded_fields:
  "win32 example_bounded = True" "granularity example_bounded = 4"
  "files example_bounded = example_files"
  "open_refused example_bounded = (\<lambda>p. False)" "stat_refused example_bounded = (\<lambda>p. False)"
  "map_choice example_bounded = (\<lambda>len off. if unat off + unat len \<le> 10 then Some 4096 else None)"
  "handle_ok example_bounded = True" "mapping_object_ok example_bounded = True"
  "malloc_ok example_bounded = True" "napi_ok example_bounded = True"
  by (simp_all add: example_bounded_def example_win32_def example_posix_def)


lemma example_files_simps:
  "example_files ''f'' = Some \<lparr>content = [10, 11, 12, 13, 14, 15, 16, 17, 18, 19], mtime = 1700000000\<rparr>"
  "example_files ''g'' = None"
  by (simp_all add: example_files_def)

lemma initial_state_fields:
  "fds initial_state = Map.empty" "next_fd initial_state = 3" "regions initial_state = []"
  "heap initial_state = Map.empty" "next_ptr initial_state = 0" "trace initial_state = []"
  by (simp_all add: initial_state_def)

lemmas example_simps = example_posix_fields example_win32_fields example_refusing_fields
  example_pages_fields example_bounded_fields example_files_simps initial_state_fields

lemma example_params:
  "mapping_params 4 6 3 = (4, 2, 5)"
  "mapping_params 4 6 30 = (4, 2, 32)"
  by (simp_all add: mapping_params_def Let_def)

lemma example_fields:
  "granularity example_posix = 4" "granularity example_win32 = 4" "granularity example_refusing = 4"
  "files example_posix ''f'' = Some \<lparr>content = [10, 11, 12, 13, 14, 15, 16, 17, 18, 19], mtime = 1700000000\<rparr>"
  "files example_posix ''g'' = None"
  "\<not> open_refused example_posix ''f''" "\<not> stat_refused example_posix ''f''"
  "map_choice example_posix 5 4 = Some 4096"
  "\<not> win32 example_posix" "malloc_ok example_posix" "napi_ok example_posix"
  by (simp_all add: example_simps)

lemma example_open:
  "fst (os_open example_posix initial_state ''f'') = 3"
  "fst (os_open example_refusing initial_state ''f'') = 3"
  "fst (os_open example_bounded initial_state ''f'') = 3"
  by (simp_all add: os_open_def example_simps)

lemma example_open_win32:
  "fst (os_open example_win32 initial_state ''f'') = 3"
  by (simp add: os_open_def example_simps)

section \<open>Claims about the fingerprint\<close>

text \<open>
  Claim C4. For every byte buffer, the string \<^verbatim>\<open>SimdChecksum\<close> returns is the hex rendering
  of the reference hash: with vector support, full 32-byte chunks added lane-wise (wrapping,
  four 64-bit lanes) into a zero accumulator, the lanes folded by exclusive-or and the
  remaining bytes folded by \<open>hash * 31 + byte\<close>; without it, the scalar fold of every byte
  from zero. The string has exactly 16 characters, all lowercase hex digits, and the empty
  buffer gives sixteen zeros.
\<close>

theorem C4_fingerprint_refines_reference:
  "SimdChecksum vector b = spec_fingerprint vector b
   \<and> length (SimdChecksum vector b) = 16
   \<and> lowercase_hex (SimdChecksum vector b)
   \<and> SimdChecksum vector [] = ''0000000000000000''"
proof -
  have e: "\<And>v c. SimdChecksum v c = spec_fingerprint v c"
    by (simp add: SimdChecksum_def spec_fingerprint_def snprintf_016llx_spec
        checksum_x86_64_spec checksum_fallback_spec)
  have z: "spec_fingerprint vector [] = ''0000000000000000''"
    by (simp add: spec_fingerprint_def spec_hash_vector_def spec_hash_scalar_def
        remaining_short zero_hex)
  show ?thesis
    using spec_hex16_props by (simp add: e z) (simp add: spec_fingerprint_def)
qed

lemma vector_eq_scalar_short:
  "length b < 32 \<Longrightarrow> checksum_x86_64 b = checksum_fallback b"
  by (simp add: checksum_x86_64_def checksum_fallback_def vector_phase_def)

text \<open>
  Claim C5, as the code has it. The claim says that the vector path and the scalar fallback
  give the same fingerprint for every buffer. They are two different functions: they agree
  on every buffer shorter than 32 bytes, where the vector block is skipped.
\<close>

theorem C5_paths_agree_below_32:
  "length b < 32 \<Longrightarrow> SimdChecksum True b = SimdChecksum False b"
  by (simp add: SimdChecksum_def vector_eq_scalar_short)

theorem C5_paths_agree_below_32_witness:
  "length [1, 2, 3 :: byte] < 32 \<and> SimdChecksum True [1, 2, 3] = SimdChecksum False [1, 2, 3]"
  using C5_paths_agree_below_32 [of "[1, 2, 3]"] by simp

text \<open>
  Claim C5 as stated fails: on the 32-byte buffer of 31 zero bytes followed by one byte 1
  the vector path yields \<open>2 ^ 56\<close> (the byte is the top byte of lane 3) and the scalar path
  yields 1.
\<close>

theorem C5_counterexample:
  "SimdChecksum True [0,0,0,0,0,0,0,0, 0,0,0,0,0,0,0,0, 0,0,0,0,0,0,0,0, 0,0,0,0,0,0,0,1]
     \<noteq> SimdChecksum False [0,0,0,0,0,0,0,0, 0,0,0,0,0,0,0,0, 0,0,0,0,0,0,0,0, 0,0,0,0,0,0,0,1]"
proof -
  let ?b = "[0,0,0,0,0,0,0,0, 0,0,0,0,0,0,0,0, 0,0,0,0,0,0,0,0, 0,0,0,0,0,0,0,1] :: byte list"
  have s: "checksum_fallback ?b = 1"
    by (simp add: checksum_fallback_def scalar_loop_foldl scalar_step_def)
  have v: "checksum_x86_64 ?b = 72057594037927936"
    unfolding checksum_x86_64_spec spec_hash_vector_def Let_def
    by (simp add: full_chunks.simps remaining_bytes.simps chunk_lanes_def add_lanes_def le64_def
        scalar_step_def upt_rec)
  have "SimdChecksum True ?b = ''0100000000000000''"
    by (simp add: SimdChecksum_def snprintf_016llx_spec v spec_hex16_def hex_digit_def upt_rec)
  moreover have "SimdChecksum False ?b = ''0000000000000001''"
    by (simp add: SimdChecksum_def snprintf_016llx_spec s spec_hex16_def hex_digit_def upt_rec)
  ultimately show ?thesis by simp
qed

text \<open>
  Claim C10. With vector support each lane of the load is the little-endian value of eight
  consecutive bytes; for a buffer of exactly 32 bytes the fingerprint is the hex rendering
  of the exclusive-or of its four little-endian 64-bit words, the vector phase stops at
  index 32, the length of the buffer, and the remainder loop, entered there, runs no
  iteration: it returns whatever hash it is given.
\<close>

theorem C10_one_chunk:
  assumes "length b = 32"
  shows "mm256_loadu_si256 b 0 =
           (le64 (take 8 b), le64 (take 8 (drop 8 b)), le64 (take 8 (drop 16 b)), le64 (take 8 (drop 24 b)))
         \<and> SimdChecksum True b =
           spec_hex16 (le64 (take 8 b) XOR le64 (take 8 (drop 8 b)) XOR
                       le64 (take 8 (drop 16 b)) XOR le64 (take 8 (drop 24 b)))
         \<and> fst (vector_phase b) = length b
         \<and> scalar_loop b (fst (vector_phase b)) h = h"
proof -
  have ld: "mm256_loadu_si256 b 0 =
      (le64 (take 8 b), le64 (take 8 (drop 8 b)), le64 (take 8 (drop 16 b)), le64 (take 8 (drop 24 b)))"
    using assms by (simp add: mm256_loadu_si256_def load_u64_take_drop)
  have v2: "vector_loop b 32 acc = (32, acc)" for acc
    using assms by (subst vector_loop.simps) simp
  have v: "vector_loop b 0 mm256_setzero_si256 = (32, mm256_loadu_si256 b 0)"
    using assms by (subst vector_loop.simps) (simp add: v2 mm256_setzero_si256_def ld)
  have ph: "vector_phase b = (32, le64 (take 8 b) XOR le64 (take 8 (drop 8 b)) XOR
                       le64 (take 8 (drop 16 b)) XOR le64 (take 8 (drop 24 b)))"
    using assms by (simp add: vector_phase_def v ld)
  have sl: "scalar_loop b 32 k = k" for k
    using assms by (subst scalar_loop.simps) simp
  show ?thesis
    using assms by (simp add: ld ph sl SimdChecksum_def checksum_x86_64_def snprintf_016llx_spec)
qed

theorem C10_one_chunk_witness:
  "length ([0,0,0,0,0,0,0,0, 0,0,0,0,0,0,0,0, 0,0,0,0,0,0,0,0, 0,0,0,0,0,0,0,1] :: byte list) = 32
   \<and> SimdChecksum True [0,0,0,0,0,0,0,0, 0,0,0,0,0,0,0,0, 0,0,0,0,0,0,0,0, 0,0,0,0,0,0,0,1]
       = ''0100000000000000''
   \<and> fst (vector_phase [0,0,0,0,0,0,0,0, 0,0,0,0,0,0,0,0, 0,0,0,0,0,0,0,0, 0,0,0,0,0,0,0,1]) = 32"
proof -
  let ?b = "[0,0,0,0,0,0,0,0, 0,0,0,0,0,0,0,0, 0,0,0,0,0,0,0,0, 0,0,0,0,0,0,0,1] :: byte list"
  have h: "length ?b = 32" by simp
  have x: "le64 (take 8 ?b) XOR le64 (take 8 (drop 8 ?b)) XOR
           le64 (take 8 (drop 16 ?b)) XOR le64 (take 8 (drop 24 ?b)) = 72057594037927936"
    by (simp add: le64_def)
  have r: "spec_hex16 72057594037927936 = ''0100000000000000''"
    by (simp add: spec_hex16_def hex_digit_def upt_rec)
  from C10_one_chunk [OF h, of 0] have
    "SimdChecksum True ?b = ''0100000000000000'' \<and> fst (vector_phase ?b) = 32"
    by (simp only: x r h)
  with h show ?thesis by simp
qed

section \<open>Claims about the mapped region reader\<close>

text \<open>
  Claim C1. Let the file at \<open>path\<close> exist and open, let the offset be non-negative, the
  length positive and the range \<open>[offset, offset + length)\<close> lie within the file, and let
  the environment do its part: the granularity it reports is not zero, the kernel grants the
  mapping at an address \<open>base\<close>, on Windows the two handle calls succeed, and the record
  allocation and the host's buffer creation succeed. Then \<^verbatim>\<open>FastReadFile\<close> returns an
  external buffer of exactly \<open>length\<close> bytes whose content is the file's bytes at
  \<open>[offset, offset + length)\<close>, and whose data pointer is \<open>base + padding\<close>, that is
  \<open>padding\<close> bytes into the live region that starts at \<open>base\<close>: the bytes are read
  through the mapping, not copied.
\<close>

theorem C1_read_region:
  assumes f: "files P path = Some f" "\<not> open_refused P path"
    and off: "0 \<le> sint offset" and len: "0 < sint len"
    and inside: "sint offset + sint len \<le> int (length (content f))"
    and g: "granularity P \<noteq> 0"
    and mp: "mapping_params (granularity P) offset len = (a, p, m)"
    and mc: "map_choice P m a = Some base"
    and w: "win32 P \<longrightarrow> handle_ok P \<and> mapping_object_ok P"
    and ok: "malloc_ok P" "napi_ok P"
  shows "\<exists>buf hint.
           fst (FastReadFile P s path offset len) = Inr buf
         \<and> buf = ExternalBuffer (base + p) len Cb_UnmapCallback hint
         \<and> buffer_length buf = nat (sint len)
         \<and> buffer_bytes (snd (FastReadFile P s path offset len)) buf
             = map Some (take (nat (sint len)) (drop (nat (sint offset)) (content f)))
         \<and> hd (regions (snd (FastReadFile P s path offset len)))
             = \<lparr>r_base = base, r_len = m, r_bytes = content f, r_off = a\<rparr>"
proof -
  let ?r = "FastReadFile P s path offset len"
  let ?buf = "ExternalBuffer (base + p) len Cb_UnmapCallback (Some (next_ptr s))"
  have a_def: "a = (offset div granularity P) * granularity P"
    and p_def: "p = offset - (offset div granularity P) * granularity P"
    and m_def: "m = len + (offset - (offset div granularity P) * granularity P)"
    using mp by (auto simp: mapping_params_def Let_def)
  have so: "sint offset = int (unat offset)" and sl: "sint len = int (unat len)"
    using off len nonneg_sint_unat(1) by simp_all
  have ua: "unat a = (unat offset div unat (granularity P)) * unat (granularity P)"
    by (simp add: a_def unat_aligned)
  have up: "unat p = unat offset mod unat (granularity P)"
    by (simp add: p_def unat_padding)
  have um: "unat m = unat len + unat p"
    using off len by (simp add: m_def up unat_map_length)
  have uap: "unat a + unat p = unat offset"
    by (simp add: ua up)
  have len0: "len \<noteq> 0" using len by auto
  have m0: "m \<noteq> 0"
  proof
    assume "m = 0"
    then have "unat m = 0" by simp
    with um have "unat len = 0" by simp
    with sl len show False by simp
  qed
  note S = FastReadFile_success [OF f len0 g mp disjI1 [OF m0] mc w ok, of s]
  from inside have "int (unat offset) + int (unat len) \<le> int (length (content f))"
    by (simp only: so sl)
  then have "int (unat offset + unat len) \<le> int (length (content f))"
    by (simp only: of_nat_add)
  then have ins: "unat offset + unat len \<le> length (content f)"
    by (simp only: of_nat_le_iff)
  have rb: "read_byte (snd ?r) (base + p + of_nat i) = Some (content f ! (unat offset + i))"
    if i: "i < unat len" for i
  proof -
    have "unat len < 2 ^ LENGTH(64)" by (rule unsigned_less)
    then have ilt: "i < 2 ^ 64" using i by simp
    have ui: "unat (of_nat i :: 64 word) = i"
      using ilt by (simp add: unat_of_nat)
    have "unat m < 2 ^ LENGTH(64)" by (rule unsigned_less)
    then have lt: "unat p + i < 2 ^ 64"
      using i um by simp
    have upi: "unat (p + of_nat i) = unat p + i"
      using lt ui by (simp add: unat_add_lem[THEN iffD1])
    have d: "base + p + of_nat i - base = p + of_nat i" by simp
    have c1: "base + p + of_nat i - base < m"
      unfolding d using i by (simp add: word_less_nat_alt upi um)
    have c2: "unat a + unat (base + p + of_nat i - base) < length (content f)"
      unfolding d upi using i ins uap by simp
    have "read_byte (snd ?r) (base + p + of_nat i)
        = read_byte (snd ?r\<lparr>regions := \<lparr>r_base = base, r_len = m, r_bytes = content f, r_off = a\<rparr> # regions s\<rparr>)
            (base + p + of_nat i)"
      by (rule read_byte_regions) (simp add: S(2))
    also have "\<dots> = Some (content f ! (unat a + unat (base + p + of_nat i - base)))"
      by (rule read_byte_head [OF c1 c2])
    also have "\<dots> = Some (content f ! (unat offset + i))"
      unfolding d upi using uap by (simp add: add.assoc [symmetric])
    finally show ?thesis .
  qed
  have bytes: "buffer_bytes (snd ?r) ?buf = map Some (take (unat len) (drop (unat offset) (content f)))"
  proof (rule nth_equalityI)
    show "length (buffer_bytes (snd ?r) ?buf) = length (map Some (take (unat len) (drop (unat offset) (content f))))"
      using ins by simp
  next
    fix i assume "i < length (buffer_bytes (snd ?r) ?buf)"
    then have i: "i < unat len" by simp
    then show "buffer_bytes (snd ?r) ?buf ! i = map Some (take (unat len) (drop (unat offset) (content f))) ! i"
      using ins by (simp add: rb)
  qed
  have n: "nat (sint len) = unat len" "nat (sint offset) = unat offset"
    using so sl by simp_all
  show ?thesis
    using S(1) bytes by (simp add: n S(2))
qed

theorem C1_read_region_witness:
  "\<exists>hint.
     fst (FastReadFile example_posix initial_state ''f'' 6 3)
       = Inr (ExternalBuffer 4098 3 Cb_UnmapCallback hint)
   \<and> buffer_length (ExternalBuffer 4098 3 Cb_UnmapCallback hint) = 3
   \<and> buffer_bytes (snd (FastReadFile example_posix initial_state ''f'' 6 3))
         (ExternalBuffer 4098 3 Cb_UnmapCallback hint) = [Some 16, Some 17, Some 18]"
proof -
  have mp: "mapping_params (granularity example_posix) 6 3 = (4, 2, 5)"
    by (simp add: example_fields example_params)
  have w: "win32 example_posix \<longrightarrow> handle_ok example_posix \<and> mapping_object_ok example_posix"
    by (simp add: example_fields)
  have g: "granularity example_posix \<noteq> 0" by (simp add: example_fields)
  from C1_read_region [OF example_fields(4) example_fields(6) _ _ _ g mp example_fields(8) w
      example_fields(10) example_fields(11), of initial_state]
  show ?thesis by auto
qed

text \<open>
  Claim C2. Whenever \<^verbatim>\<open>FastReadFile\<close> returns a buffer backed by a mapping, the finalizer
  attached to it is \<^verbatim>\<open>UnmapCallback\<close> with a hint that points to a heap record holding the
  true base of the mapping and its true length \<open>map_length\<close>, while the buffer itself starts
  at \<open>base + padding\<close> and has the requested length. Running the finalizer issues the unmap
  call on exactly that base (and, with \<^verbatim>\<open>munmap\<close>, that length), removes the region from
  the live regions and frees the record, all in the one invocation.
\<close>

theorem C2_release_callback:
  assumes r: "fst (FastReadFile P s path offset len) = Inr (ExternalBuffer d l cb hint)"
    and mp: "mapping_params (granularity P) offset len = (a, p, m)"
  shows "\<exists>base ptr bytes s'.
           cb = Cb_UnmapCallback \<and> hint = Some ptr \<and> d = base + p \<and> l = len
         \<and> hd (regions (snd (FastReadFile P s path offset len)))
             = \<lparr>r_base = base, r_len = m, r_bytes = bytes, r_off = a\<rparr>
         \<and> heap (snd (FastReadFile P s path offset len)) ptr
             = Some \<lparr>mapped_addr = base, mapped_len = m\<rparr>
         \<and> run_finalizer P (snd (FastReadFile P s path offset len)) (ExternalBuffer d l cb hint)
             = Inr s'
         \<and> trace s' = trace (snd (FastReadFile P s path offset len))
                        @ [if win32 P then UnmapViewOfFile base else Munmap base m]
         \<and> \<lparr>r_base = base, r_len = m, r_bytes = bytes, r_off = a\<rparr> \<notin> set (regions s')
         \<and> set (regions s') \<subseteq> set (regions s)
         \<and> heap s' ptr = None"
proof -
  let ?s1 = "snd (FastReadFile P s path offset len)"
  from FastReadFile_external_inv [OF r mp] obtain f base where
    c: "files P path = Some f" "\<not> open_refused P path" "len \<noteq> 0" "granularity P \<noteq> 0"
       "m \<noteq> 0 \<or> (win32 P \<and> unat a < length (content f))" "map_choice P m a = Some base"
       "win32 P \<longrightarrow> handle_ok P \<and> mapping_object_ok P" "malloc_ok P" "napi_ok P"
    by blast
  note S = FastReadFile_success [OF c(1) c(2) c(3) c(4) mp c(5) c(6) c(7) c(8) c(9), of s]
  from r S(1) have e: "d = base + p" "l = len" "cb = Cb_UnmapCallback" "hint = Some (next_ptr s)"
    by simp_all
  have h: "heap ?s1 (next_ptr s) = Some \<lparr>mapped_addr = base, mapped_len = m\<rparr>"
    by (simp add: S(3))
  from UnmapCallback_live [OF h, of P] obtain s' where
    u: "UnmapCallback P ?s1 (Some (next_ptr s)) = Inr s'"
       "trace s' = trace ?s1 @ [if win32 P then UnmapViewOfFile base else Munmap base m]"
       "regions s' = (if win32 P then filter (\<lambda>r. r_base r \<noteq> base) (regions ?s1)
                        else filter (\<lambda>r. \<not> (r_base r = base \<and> r_len r = m)) (regions ?s1))"
       "heap s' = (heap ?s1)(next_ptr s := None)"
    by blast
  have gone: "\<lparr>r_base = base, r_len = m, r_bytes = content f, r_off = a\<rparr> \<notin> set (regions s')"
    by (simp add: u(3))
  have sub: "set (regions s') \<subseteq> set (regions s)"
    by (auto simp: u(3) S(2))
  have fin: "run_finalizer P ?s1 (ExternalBuffer d l cb hint) = Inr s'"
    by (simp add: e u(1))
  have hd: "hd (regions ?s1) = \<lparr>r_base = base, r_len = m, r_bytes = content f, r_off = a\<rparr>"
    by (simp add: S(2))
  have hn: "heap s' (next_ptr s) = None" by (simp add: u(4))
  from e hd h fin u(2) gone sub hn show ?thesis by blast
qed

theorem C2_release_callback_witness:
  "fst (FastReadFile example_posix initial_state ''f'' 6 3)
     = Inr (ExternalBuffer 4098 3 Cb_UnmapCallback (Some 0))
   \<and> (\<exists>s'. run_finalizer example_posix (snd (FastReadFile example_posix initial_state ''f'' 6 3))
              (ExternalBuffer 4098 3 Cb_UnmapCallback (Some 0)) = Inr s'
        \<and> trace s' = trace (snd (FastReadFile example_posix initial_state ''f'' 6 3))
                        @ [Munmap 4096 5]
        \<and> heap s' 0 = None)"
proof -
  have mp: "mapping_params (granularity example_posix) 6 3 = (4, 2, 5)"
    by (simp add: example_fields example_params)
  have w: "win32 example_posix \<longrightarrow> handle_ok example_posix \<and> mapping_object_ok example_posix"
    by (simp add: example_fields)
  have g: "granularity example_posix \<noteq> 0" by (simp add: example_fields)
  have r: "fst (FastReadFile example_posix initial_state ''f'' 6 3)
     = Inr (ExternalBuffer 4098 3 Cb_UnmapCallback (Some 0))"
    using FastReadFile_success(1) [OF example_fields(4) example_fields(6) _ g mp _ example_fields(8) w
      example_fields(10) example_fields(11), of initial_state]
    by (simp add: example_simps)
  from C2_release_callback [OF r mp] obtain base ptr bytes s' where
    c: "Some (0::nat) = Some ptr" "(4098 :: 64 word) = base + 2"
       "run_finalizer example_posix (snd (FastReadFile example_posix initial_state ''f'' 6 3))
              (ExternalBuffer 4098 3 Cb_UnmapCallback (Some 0)) = Inr s'"
       "trace s' = trace (snd (FastReadFile example_posix initial_state ''f'' 6 3))
                        @ [if win32 example_posix then UnmapViewOfFile base else Munmap base 5]"
       "heap s' ptr = None"
    by blast
  from c(2) have "base = 4098 - 2" by (simp add: algebra_simps)
  then have b: "base = 4096" by simp
  from c(1) have p: "ptr = 0" by simp
  show ?thesis using r c(3) c(4) c(5) by (simp add: b p example_fields)
qed

text \<open>
  Claim C3, as the code has it. \<^verbatim>\<open>FastReadFile\<close> does not validate its arguments: a call
  with a negative offset or a negative length never fails with \<open>InvalidArgument\<close>; its first
  action is the \<^verbatim>\<open>open\<close> call on the path; it fails with \<open>FileOpenError\<close> exactly when that
  call fails, leaving the state in which \<^verbatim>\<open>open\<close> left it.
\<close>

theorem C3_no_validation:
  assumes "sint offset < 0 \<or> sint len < 0"
  shows "fst (FastReadFile P s path offset len) \<noteq> Inl InvalidArgument
       \<and> take (Suc (length (trace s))) (trace (snd (FastReadFile P s path offset len)))
           = trace s @ [Open path]
       \<and> (if fst (os_open P s path) < 0
          then FastReadFile P s path offset len = (Inl FileOpenError, snd (os_open P s path))
          else fst (FastReadFile P s path offset len) \<noteq> Inl FileOpenError)"
  by (auto simp: FastReadFile_def map_posix_def map_win32_def wrap_mapping_def os_defs Let_def
      split: option.splits if_splits prod.splits)

theorem C3_no_validation_witness:
  "sint (- 1 :: 64 word) < 0
   \<and> fst (FastReadFile example_posix initial_state ''f'' (- 1) 0) = Inr (Buffer 0)
   \<and> fst (FastReadFile example_posix initial_state ''f'' (- 1) 0) \<noteq> Inl InvalidArgument
   \<and> take 1 (trace (snd (FastReadFile example_posix initial_state ''f'' (- 1) 0))) = [Open ''f'']"
proof -
  have h: "sint (- 1 :: 64 word) < 0 \<or> sint (0 :: 64 word) < 0" by simp
  have e: "fst (FastReadFile example_posix initial_state ''f'' (- 1) 0) = Inr (Buffer 0)"
    by (simp add: FastReadFile_def os_open_def os_close_def record_call_def Let_def example_simps)
  from C3_no_validation [OF h, of example_posix initial_state "''f''"]
  show ?thesis by (simp add: example_simps e)
qed

text \<open>
  Claim C3 as stated fails. With offset 0 and length -1 on the example system whose kernel
  refuses mappings, the file is opened, the page size queried and \<^verbatim>\<open>mmap\<close> called with the
  length \<open>2 ^ 64 - 1\<close>; the error is the mapping error, not \<open>InvalidArgument\<close>.
\<close>

theorem C3_counterexample:
  "fst (FastReadFile example_refusing initial_state ''f'' 0 (- 1))
     = Inl (MappingError ''Failed to map file'')
   \<and> fst (FastReadFile example_refusing initial_state ''f'' 0 (- 1)) \<noteq> Inl InvalidArgument
   \<and> trace (snd (FastReadFile example_refusing initial_state ''f'' 0 (- 1)))
       = [Open ''f'', Sysconf_PAGESIZE, Mmap (- 1) 3 0, Close 3]"
  by (simp add: FastReadFile_def os_open_def map_posix_def os_mmap_def map_region_def
      os_close_def record_call_def GetAllocationGranularity_def mapping_params_def Let_def
      example_simps)




text \<open>
  Claim C7. For every path that opens and every offset, a call with length 0 returns an
  empty buffer owned by the host, with no finalizer, provided the host creates it; the
  only system calls made are \<^verbatim>\<open>open\<close> and \<^verbatim>\<open>close\<close>, the descriptor is closed, and the live
  regions and the heap are untouched.
\<close>

theorem C7_zero_length:
  assumes "0 \<le> fst (os_open P s path)" and "napi_ok P"
  shows "fst (FastReadFile P s path offset 0) = Inr (Buffer 0)
       \<and> buffer_length (Buffer 0) = 0
       \<and> finalizer (Buffer 0) = None
       \<and> trace (snd (FastReadFile P s path offset 0))
           = trace s @ [Open path, Close (fst (os_open P s path))]
       \<and> fds (snd (FastReadFile P s path offset 0)) (fst (os_open P s path)) = None
       \<and> regions (snd (FastReadFile P s path offset 0)) = regions s
       \<and> heap (snd (FastReadFile P s path offset 0)) = heap s"
  using assms
  by (auto simp: FastReadFile_def os_open_def os_close_def record_call_def Let_def
      split: option.splits if_splits prod.splits)

theorem C7_zero_length_witness:
  "fst (FastReadFile example_posix initial_state ''f'' 7 0) = Inr (Buffer 0)
   \<and> trace (snd (FastReadFile example_posix initial_state ''f'' 7 0)) = [Open ''f'', Close 3]
   \<and> regions (snd (FastReadFile example_posix initial_state ''f'' 7 0)) = []"
proof -
  have o: "0 \<le> fst (os_open example_posix initial_state ''f'')" by (simp add: example_open)
  from C7_zero_length [OF o example_fields(11), of 7]
  show ?thesis by (simp add: example_open example_simps)
qed

text \<open>
  Claim C8. For a non-negative offset and a positive length, in a call that reaches the
  mapping step, \<open>aligned_offset = (offset div granularity) * granularity\<close> as integers,
  \<open>padding = offset - aligned_offset\<close> with \<open>0 \<le> padding < granularity\<close>, and
  \<open>map_length = length + padding\<close> without wrap-around. The granularity is the value
  \<^verbatim>\<open>GetAllocationGranularity\<close> obtains from the system, the query being the second call of
  the trace, and the mapping call is issued with exactly these parameters (on Windows with
  the offset split into two halves that recombine to \<open>aligned_offset\<close>).
\<close>

theorem C8_alignment:
  assumes off: "0 \<le> sint offset" and len: "0 < sint len"
    and op: "0 \<le> fst (os_open P s path)" and g: "granularity P \<noteq> 0"
    and w: "win32 P \<longrightarrow> handle_ok P \<and> mapping_object_ok P"
    and mp: "mapping_params (granularity P) offset len = (a, p, m)"
  shows "sint a = (sint offset div uint (granularity P)) * uint (granularity P)
       \<and> uint p = sint offset - sint a
       \<and> 0 \<le> uint p \<and> uint p < uint (granularity P)
       \<and> uint m = sint len + uint p
       \<and> fst (GetAllocationGranularity P s) = granularity P
       \<and> take (length (trace s) + (if win32 P then 5 else 3))
           (trace (snd (FastReadFile P s path offset len))) =
         trace s @
           (if win32 P
            then [Open path, GetSystemInfo, Get_osfhandle (fst (os_open P s path)),
                  CreateFileMapping (fst (os_open P s path)),
                  MapViewOfFile (fst (os_open P s path)) (ucast (signed_drop_bit 32 a))
                    (ucast (a AND 0xFFFFFFFF)) m]
            else [Open path, Sysconf_PAGESIZE, Mmap m (fst (os_open P s path)) a])
       \<and> push_bit 32 (ucast (ucast (signed_drop_bit 32 a) :: 32 word)) OR
           ucast (ucast (a AND 0xFFFFFFFF) :: 32 word) = a"
proof -
  let ?g = "granularity P"
  have a_def: "a = (offset div ?g) * ?g"
    and p_def: "p = offset - (offset div ?g) * ?g"
    and m_def: "m = len + (offset - (offset div ?g) * ?g)"
    using mp by (auto simp: mapping_params_def Let_def)
  have so: "sint offset = int (unat offset)" and sl: "sint len = int (unat len)"
    using off len nonneg_sint_unat(1) by simp_all
  have ua: "unat a = (unat offset div unat ?g) * unat ?g"
    by (simp add: a_def unat_aligned)
  have up: "unat p = unat offset mod unat ?g"
    by (simp add: p_def unat_padding)
  have um: "unat m = unat len + unat p"
    using off len by (simp add: m_def up unat_map_length)
  have gpos: "0 < unat ?g" using g by (simp add: unat_gt_0)
  have ale: "unat a \<le> unat offset" by (simp add: ua)
  have "unat offset < 2 ^ 63" using off by (rule nonneg_sint_unat(2))
  with ale have alt: "unat a < 2 ^ 63" by simp
  have sa: "sint a = int (unat a)" using alt by (rule small_unat_sint)
  have 1: "sint a = (sint offset div uint ?g) * uint ?g"
    unfolding sa so by (simp only: ua uint_nat of_nat_mult of_nat_div)
  have "int (unat offset mod unat ?g)
          = int (unat offset) - (int (unat offset) div int (unat ?g)) * int (unat ?g)"
    by (simp only: of_nat_mod minus_div_mult_eq_mod)
  then have 2: "uint p = sint offset - sint a"
    unfolding sa so uint_nat up by (simp only: ua of_nat_mult of_nat_div)
  have 3: "uint p < uint ?g"
    unfolding uint_nat up using gpos by (simp only: of_nat_less_iff mod_less_divisor)
  have 4: "uint m = sint len + uint p"
    unfolding uint_nat sl um by (simp only: of_nat_add)
  have 5: "fst (GetAllocationGranularity P s) = ?g"
    by (simp add: GetAllocationGranularity_def)
  have len0: "len \<noteq> 0" using len by auto
  note 6 = mapping_call_traced [OF op len0 g mp w]
  have 0: "0 \<le> uint p" by simp
  have 7: "push_bit 32 (ucast (ucast (signed_drop_bit 32 a) :: 32 word)) OR
           ucast (ucast (a AND 0xFFFFFFFF) :: 32 word) = a"
    by (rule win32_offset_halves)
  show ?thesis by (intro conjI 1 2 0 3 4 5 6 7)
qed

theorem C8_alignment_witness:
  "sint (4 :: 64 word) = (sint (6 :: 64 word) div uint (4 :: 64 word)) * uint (4 :: 64 word)
   \<and> uint (2 :: 64 word) = sint (6 :: 64 word) - sint (4 :: 64 word)
   \<and> uint (2 :: 64 word) < uint (4 :: 64 word)
   \<and> uint (5 :: 64 word) = sint (3 :: 64 word) + uint (2 :: 64 word)
   \<and> take 5 (trace (snd (FastReadFile example_win32 initial_state ''f'' 6 3)))
       = [Open ''f'', GetSystemInfo, Get_osfhandle 3, CreateFileMapping 3, MapViewOfFile 3 0 4 5]"
proof -
  have o: "0 \<le> fst (os_open example_win32 initial_state ''f'')" by (simp add: example_open_win32)
  have g: "granularity example_win32 \<noteq> 0" by (simp add: example_simps)
  have w: "win32 example_win32 \<longrightarrow> handle_ok example_win32 \<and> mapping_object_ok example_win32"
    by (simp add: example_simps)
  have mp: "mapping_params (granularity example_win32) 6 3 = (4, 2, 5)"
    by (simp add: example_simps example_params)
  have hi: "(ucast (signed_drop_bit 32 (4 :: 64 word)) :: 32 word) = 0"
    by simp
  have lo: "(ucast ((4 :: 64 word) AND 0xFFFFFFFF) :: 32 word) = 4"
    by simp
  from C8_alignment [OF _ _ o g w mp]
  show ?thesis by (simp add: example_open_win32 example_simps hi lo)
qed

section \<open>Claims about the path metadata\<close>




end
